theory Spec2Isabelle
  imports Complex_Main
begin

section \<open>The PYME rule server: rules, tasks and the rule registry\<close>

text \<open>
  A shallow embedding of \<^verbatim>\<open>PYME/cluster/ruleserver.py\<close>. Each method of
  \<^verbatim>\<open>IntegerIDRule\<close> and \<^verbatim>\<open>RuleServer\<close> is a function from the object's state to
  the state after the call, paired with what the call returned or raised: a Python
  object keeps whatever was written to it before an exception, so the state is returned
  on both paths. Every \<^verbatim>\<open>time.time()\<close> read is the parameter \<open>now\<close>. Times and
  costs are rationals: the rounding of the \<^verbatim>\<open>f4\<close> columns is not modelled. Locks are
  not modelled: each method runs as one step.
\<close>

subsection \<open>Task rows\<close>

definition STATUS_UNAVAILABLE :: nat where "STATUS_UNAVAILABLE = 0"
definition STATUS_AVAILABLE :: nat where "STATUS_AVAILABLE = 1"
definition STATUS_ASSIGNED :: nat where "STATUS_ASSIGNED = 2"
definition STATUS_COMPLETE :: nat where "STATUS_COMPLETE = 3"
definition STATUS_FAILED :: nat where "STATUS_FAILED = 4"

text \<open>One row of \<^verbatim>\<open>TASK_INFO_DTYPE\<close>; \<open>status\<close> and \<open>nRetries\<close> are \<^verbatim>\<open>uint8\<close>.\<close>

record task =
  status :: nat
  nRetries :: nat
  expiry :: rat
  cost :: rat

text \<open>A row of \<^verbatim>\<open>np.zeros(n, TASK_INFO_DTYPE)\<close>.\<close>

definition zero_task :: task where
  "zero_task = \<lparr>status = 0, nRetries = 0, expiry = 0, cost = 0\<rparr>"

datatype py_error = IndexError | KeyError | ValueError | RuntimeError

datatype follow_on =
  FollowOn (fo_template: string) (fo_max_tasks: "int option")
    (fo_rule_timeout: "rat option") (fo_on_completion: "follow_on option")

record advertisement =
  ad_ruleID :: string
  ad_taskTemplate :: string
  ad_availableTaskIDs :: "nat list"
  ad_inputsByTask :: "(nat \<times> string) list option"

record rule =
  ruleID :: string
  inputs_by_task :: "(int \<times> string) list option"
  template :: string
  task_info :: "task list"
  n_retries :: int
  timeout :: rat
  rule_timeout :: rat
  cached_advert :: "advertisement option"
  active :: bool
  nTotal :: int
  nAssigned :: int
  nAvailable :: int
  nCompleted :: int
  nFailed :: int
  n_max :: int
  datasource_complete :: bool
  on_completion :: "follow_on option"
  avCost :: rat
  rule_expiry :: rat

subsection \<open>numpy helpers\<close>

text \<open>\<^verbatim>\<open>int((a['status'] == v).sum())\<close>\<close>

definition count_status :: "nat \<Rightarrow> task list \<Rightarrow> int" where
  "count_status v ts = int (length (filter (\<lambda>k. status k = v) ts))"

text \<open>
  An integer index into an array of length \<open>n\<close>: a negative index counts from the end,
  anything outside \<open>[-n, n)\<close> raises IndexError (here \<open>None\<close>).
\<close>

definition resolve :: "nat \<Rightarrow> int \<Rightarrow> nat option" where
  "resolve n i =
     (if 0 \<le> i \<and> i < int n then Some (nat i)
      else if - int n \<le> i \<and> i < 0 then Some (nat (int n + i))
      else None)"

fun resolve_all :: "nat \<Rightarrow> int list \<Rightarrow> nat list option" where
  "resolve_all n [] = Some []"
| "resolve_all n (i # is) =
     (case resolve n i of None \<Rightarrow> None
      | Some r \<Rightarrow> (case resolve_all n is of None \<Rightarrow> None | Some rs \<Rightarrow> Some (r # rs)))"

text \<open>
  \<^verbatim>\<open>a[field][rows] = vals\<close> with an index array: the writes happen in order, so the last
  value written to a repeated row stays.
\<close>

fun put_rows :: "('v \<Rightarrow> task \<Rightarrow> task) \<Rightarrow> (nat \<times> 'v) list \<Rightarrow> task list \<Rightarrow> task list" where
  "put_rows f [] ts = ts"
| "put_rows f ((i, v) # ps) ts = put_rows f ps (ts[i := f v (ts ! i)])"

text \<open>\<^verbatim>\<open>xs[mask]\<close> with a boolean mask of the same length.\<close>

fun masked :: "bool list \<Rightarrow> 'a list \<Rightarrow> 'a list" where
  "masked (m # ms) (x # xs) = (if m then x # masked ms xs else masked ms xs)"
| "masked _ _ = []"

subsection \<open>IntegerIDRule\<close>

text \<open>
  \<^verbatim>\<open>__init__\<close>; \<open>retries\<close> is \<^verbatim>\<open>config.get('ruleserver-retries', 3)\<close>.
  \<^verbatim>\<open>np.zeros\<close> raises ValueError on a negative size.
\<close>

definition IntegerIDRule ::
  "rat \<Rightarrow> int \<Rightarrow> string \<Rightarrow> string \<Rightarrow> (int \<times> string) list option \<Rightarrow> int \<Rightarrow> rat \<Rightarrow> rat
     \<Rightarrow> follow_on option \<Rightarrow> bool \<Rightarrow> py_error + rule" where
  "IntegerIDRule now retries rid task_template ibt max_task_ID task_timeout rule_tmo on_compl ds_complete =
     (if max_task_ID < 0 then Inl ValueError
      else Inr \<lparr>ruleID = rid, inputs_by_task = ibt, template = task_template,
        task_info = replicate (nat max_task_ID) zero_task,
        n_retries = retries, timeout = task_timeout, rule_timeout = rule_tmo,
        cached_advert = None, active = True,
        nTotal = 0, nAssigned = 0, nAvailable = 0, nCompleted = 0, nFailed = 0,
        n_max = max_task_ID, datasource_complete = ds_complete,
        on_completion = on_compl, avCost = 0, rule_expiry = now + rule_tmo\<rparr>)"

definition update_nums :: "rule \<Rightarrow> rule" where
  "update_nums r =
     r\<lparr>nAvailable := count_status STATUS_AVAILABLE (task_info r),
       nAssigned := count_status STATUS_ASSIGNED (task_info r)\<rparr>"

text \<open>
  \<^verbatim>\<open>_update_cost\<close>: the mean of \<open>cost\<close> over the rows with
  \<open>status > STATUS_AVAILABLE\<close>; the mean of nothing is NaN, which becomes 0.
\<close>

definition update_cost :: "rule \<Rightarrow> rule" where
  "update_cost r =
     (let cs = map cost (filter (\<lambda>k. status k > STATUS_AVAILABLE) (task_info r))
      in r\<lparr>avCost := (if cs = [] then 0 else sum_list cs / of_nat (length cs))\<rparr>)"

definition mark_datasource_complete :: "int \<Rightarrow> rule \<Rightarrow> rule \<times> (py_error + unit)" where
  "mark_datasource_complete n r =
     (let r1 = update_nums r in
      if nAssigned r1 > n then (r1, Inl ValueError)
      else
        let ts = (if n > int (length (task_info r1))
                  then task_info r1 @ replicate (nat (n - int (length (task_info r1)))) zero_task
                  else task_info r1)
        in (r1\<lparr>task_info := ts, n_max := n, datasource_complete := True\<rparr>, Inr ()))"

text \<open>\<^verbatim>\<open>a['status'][start:end] = STATUS_AVAILABLE\<close> for \<open>0 \<le> start, end \<le> len(a)\<close>.\<close>

definition release_slice :: "int \<Rightarrow> int \<Rightarrow> task list \<Rightarrow> task list" where
  "release_slice start end ts =
     map (\<lambda>(i, k). if start \<le> int i \<and> int i < end then k\<lparr>status := STATUS_AVAILABLE\<rparr> else k)
       (zip [0..<length ts] ts)"

definition make_range_available :: "rat \<Rightarrow> int \<Rightarrow> int \<Rightarrow> rule \<Rightarrow> rule \<times> (py_error + unit)" where
  "make_range_available now start end r =
     (let size = int (length (task_info r)) in
      if start < 0 \<or> start > size \<or> end < 0 \<or> end > size then (r, Inl RuntimeError)
      else
        let ts = release_slice start end (task_info r);
            r1 = r\<lparr>task_info := ts, nTotal := int (length (filter (\<lambda>k. status k > 0) ts))\<rparr>;
            r2 = update_nums r1
        in (r2\<lparr>rule_expiry := now + rule_timeout r2, cached_advert := None\<rparr>, Inr ()))"

record bid_request =
  bid_ruleID :: string
  bid_taskIDs :: "int list"
  bid_costs :: "rat list"

record bid_result =
  res_ruleID :: string
  res_taskIDs :: "int list"
  res_template :: string

text \<open>
  \<^verbatim>\<open>bid\<close>. Reading \<^verbatim>\<open>status[taskIDs]\<close> raises IndexError before anything is written.
  \<^verbatim>\<open>costs[successful_bid_mask]\<close> raises IndexError when the two lists differ in
  length, after the statuses have been written.
\<close>

definition bid :: "rat \<Rightarrow> bid_request \<Rightarrow> rule \<Rightarrow> rule \<times> (py_error + bid_result)" where
  "bid now b r =
     (if \<not> active r then
        (r, Inr \<lparr>res_ruleID = bid_ruleID b, res_taskIDs = [], res_template = []\<rparr>)
      else
        case resolve_all (length (task_info r)) (bid_taskIDs b) of
          None \<Rightarrow> (r, Inl IndexError)
        | Some rows \<Rightarrow>
            let successful_bid_mask = map (\<lambda>i. status (task_info r ! i) = STATUS_AVAILABLE) rows;
                successful_bid_ids = masked successful_bid_mask (bid_taskIDs b);
                successful_rows = masked successful_bid_mask rows;
                ts1 = put_rows (\<lambda>v k. k\<lparr>status := v\<rparr>)
                        (map (\<lambda>i. (i, STATUS_ASSIGNED)) successful_rows) (task_info r)
            in if length (bid_costs b) \<noteq> length (bid_taskIDs b)
               then (r\<lparr>task_info := ts1\<rparr>, Inl IndexError)
               else
                 let ts2 = put_rows (\<lambda>v k. k\<lparr>cost := v\<rparr>)
                             (zip successful_rows (masked successful_bid_mask (bid_costs b))) ts1;
                     ts3 = put_rows (\<lambda>v k. k\<lparr>expiry := v\<rparr>)
                             (map (\<lambda>i. (i, now + timeout r)) successful_rows) ts2;
                     nTasks = int (length successful_bid_ids);
                     r1 = update_cost (r\<lparr>task_info := ts3, nAvailable := nAvailable r - nTasks,
                            nAssigned := nAssigned r + nTasks\<rparr>)
                 in (r1\<lparr>rule_expiry := now + rule_timeout r, cached_advert := None\<rparr>,
                     Inr \<lparr>res_ruleID = bid_ruleID b, res_taskIDs = successful_bid_ids,
                          res_template = template r\<rparr>))"

record handin_entry =
  hi_ruleID :: string
  hi_taskIDs :: "int list"
  hi_status :: "nat list"

text \<open>
  \<^verbatim>\<open>mark_complete\<close>. The assignment \<^verbatim>\<open>status[taskIDs] = status\<close> raises IndexError on
  an id out of range; a status list of length one is broadcast to every id, any other
  length mismatch raises ValueError. Nothing is written when it raises.
\<close>

definition mark_complete :: "rat \<Rightarrow> handin_entry \<Rightarrow> rule \<Rightarrow> rule \<times> (py_error + unit)" where
  "mark_complete now info r =
     (case resolve_all (length (task_info r)) (hi_taskIDs info) of
        None \<Rightarrow> (r, Inl IndexError)
      | Some rows \<Rightarrow>
          if length (hi_status info) \<noteq> length rows \<and> length (hi_status info) \<noteq> 1
          then (r, Inl ValueError)
          else
            let vals = (if length (hi_status info) = length rows then hi_status info
                        else replicate (length rows) (hd (hi_status info)));
                ts = put_rows (\<lambda>v k. k\<lparr>status := v\<rparr>) (zip rows vals) (task_info r)
            in (r\<lparr>task_info := ts,
                  nCompleted := nCompleted r
                     + int (length (filter (\<lambda>v. v = STATUS_COMPLETE) (hi_status info))),
                  nFailed := nFailed r
                     + int (length (filter (\<lambda>v. v = STATUS_FAILED) (hi_status info))),
                  nAssigned := nAssigned r - int (length (hi_taskIDs info)),
                  rule_expiry := now + rule_timeout r\<rparr>, Inr ()))"

definition expired :: "rat \<Rightarrow> rule \<Rightarrow> bool" where
  "expired now r \<longleftrightarrow> nAvailable r = 0 \<and> nAssigned r = 0 \<and> now > rule_expiry r"

definition finished :: "rule \<Rightarrow> bool" where
  "finished r \<longleftrightarrow> datasource_complete r \<and> nCompleted r \<ge> n_max r"

definition inactivate :: "rule \<Rightarrow> rule" where
  "inactivate r = r\<lparr>active := False\<rparr>"

text \<open>
  \<^verbatim>\<open>poll_timeouts\<close>. \<^verbatim>\<open>np.where\<close> yields each timed-out row once, so the two indexed
  writes are one pass over the rows; \<^verbatim>\<open>nRetries\<close> is \<^verbatim>\<open>uint8\<close> and wraps at 256.
  \<^verbatim>\<open>retry_failed\<close> is a mask over the whole array.
\<close>

definition timed_out_row :: "rat \<Rightarrow> task \<Rightarrow> bool" where
  "timed_out_row t k \<longleftrightarrow> status k = STATUS_ASSIGNED \<and> expiry k < t"

definition retry_failed_row :: "int \<Rightarrow> task \<Rightarrow> bool" where
  "retry_failed_row retries k \<longleftrightarrow> int (nRetries k) > retries"

definition poll_timeouts :: "rat \<Rightarrow> rule \<Rightarrow> rule" where
  "poll_timeouts t r =
     (let nTimedOut = int (length (filter (timed_out_row t) (task_info r)));
          r3 = (if nTimedOut > 0 then
                  let ts1 = map (\<lambda>k. if timed_out_row t k
                                 then k\<lparr>status := STATUS_AVAILABLE, nRetries := (nRetries k + 1) mod 256\<rparr>
                                 else k) (task_info r);
                      ts2 = map (\<lambda>k. if retry_failed_row (n_retries r) k
                                 then k\<lparr>status := STATUS_FAILED\<rparr> else k) ts1
                  in r\<lparr>task_info := ts2,
                       nAssigned := nAssigned r - nTimedOut,
                       nAvailable := nAvailable r + nTimedOut
                          - int (length (filter (retry_failed_row (n_retries r)) ts1))\<rparr>
                else r)
      in r3\<lparr>cached_advert := None\<rparr>)"

text \<open>
  The \<^verbatim>\<open>advert\<close> property. A cached advert is returned as it is. A task id missing
  from \<^verbatim>\<open>_inputs_by_task\<close> raises KeyError after the advert without inputs has been
  cached.
\<close>

fun lookup_inputs :: "(int \<times> string) list \<Rightarrow> nat list \<Rightarrow> (nat \<times> string) list option" where
  "lookup_inputs ibt [] = Some []"
| "lookup_inputs ibt (i # is) =
     (case map_of ibt (int i) of None \<Rightarrow> None
      | Some v \<Rightarrow> (case lookup_inputs ibt is of None \<Rightarrow> None | Some vs \<Rightarrow> Some ((i, v) # vs)))"

definition available_ids :: "task list \<Rightarrow> nat list" where
  "available_ids ts = filter (\<lambda>i. status (ts ! i) = STATUS_AVAILABLE) [0..<length ts]"

definition advert :: "rule \<Rightarrow> rule \<times> (py_error + advertisement option)" where
  "advert r =
     (if \<not> active r then (r, Inr None)
      else case cached_advert r of
        Some a \<Rightarrow> (r, Inr (Some a))
      | None \<Rightarrow>
          let availableTasks = available_ids (task_info r) in
          if availableTasks = [] then (r\<lparr>cached_advert := None\<rparr>, Inr None)
          else
            let a = \<lparr>ad_ruleID = ruleID r, ad_taskTemplate = template r,
                     ad_availableTaskIDs = availableTasks, ad_inputsByTask = None\<rparr>
            in case inputs_by_task r of
                 None \<Rightarrow> (r\<lparr>cached_advert := Some a\<rparr>, Inr (Some a))
               | Some ibt \<Rightarrow>
                   (case lookup_inputs ibt availableTasks of
                      None \<Rightarrow> (r\<lparr>cached_advert := Some a\<rparr>, Inl KeyError)
                    | Some ins \<Rightarrow>
                        (r\<lparr>cached_advert := Some (a\<lparr>ad_inputsByTask := Some ins\<rparr>)\<rparr>,
                         Inr (Some (a\<lparr>ad_inputsByTask := Some ins\<rparr>)))))"

subsection \<open>Sequences of calls on one rule\<close>

datatype rule_op =
  MakeRangeAvailable rat int int
| Bid rat bid_request
| MarkComplete rat handin_entry
| PollTimeouts rat
| MarkDatasourceComplete int
| Inactivate

text \<open>The rule after one call, whether the call returned or raised.\<close>

fun apply_op :: "rule_op \<Rightarrow> rule \<Rightarrow> rule" where
  "apply_op (MakeRangeAvailable now start end) r = fst (make_range_available now start end r)"
| "apply_op (Bid now b) r = fst (bid now b r)"
| "apply_op (MarkComplete now info) r = fst (mark_complete now info r)"
| "apply_op (PollTimeouts t) r = poll_timeouts t r"
| "apply_op (MarkDatasourceComplete n) r = fst (mark_datasource_complete n r)"
| "apply_op Inactivate r = inactivate r"

fun run_ops :: "rule_op list \<Rightarrow> rule \<Rightarrow> rule" where
  "run_ops [] r = r"
| "run_ops (x # xs) r = run_ops xs (apply_op x r)"






definition counts_agree :: "rule \<Rightarrow> bool" where
  "counts_agree r \<longleftrightarrow>
     nAvailable r = count_status STATUS_AVAILABLE (task_info r)
     \<and> nAssigned r = count_status STATUS_ASSIGNED (task_info r)"



subsection \<open>RuleServer\<close>

text \<open>
  \<^verbatim>\<open>_rules\<close> is an OrderedDict: an association list with distinct keys, in insertion
  order. The rule objects are mutated in place, which \<open>update_rule\<close> writes out.
\<close>

record server =
  rules :: "(string \<times> rule) list"
  rule_n :: nat
  srv_cached_advert :: "advertisement list option"
  cached_advert_expiry :: rat

definition MAX_ADVERTISEMENTS :: nat where
  "MAX_ADVERTISEMENTS = 5 * 10 * 50 * 12"

definition update_rule :: "string \<Rightarrow> rule \<Rightarrow> (string \<times> rule) list \<Rightarrow> (string \<times> rule) list" where
  "update_rule k r rs = map (\<lambda>(k', r'). if k' = k then (k', r) else (k', r')) rs"

definition pop_rule :: "string \<Rightarrow> (string \<times> rule) list \<Rightarrow> (string \<times> rule) list" where
  "pop_rule k rs = filter (\<lambda>(k', r'). k' \<noteq> k) rs"

definition set_rule :: "string \<Rightarrow> rule \<Rightarrow> (string \<times> rule) list \<Rightarrow> (string \<times> rule) list" where
  "set_rule k r rs = (if k \<in> fst ` set rs then update_rule k r rs else rs @ [(k, r)])"

text \<open>
  The loop of \<^verbatim>\<open>task_advertisements\<close> over \<^verbatim>\<open>list(self._rules.values())\<close>, from the
  rule at \<^verbatim>\<open>ruleN\<close> on: \<open>nTasks\<close> and \<open>adverts\<close> are the loop's variables.
\<close>

fun advert_loop ::
  "(string \<times> rule) list \<Rightarrow> nat \<Rightarrow> advertisement list
     \<Rightarrow> (string \<times> rule) list \<times> (py_error + advertisement list)" where
  "advert_loop [] nTasks adverts = ([], Inr adverts)"
| "advert_loop ((k, r) # rs) nTasks adverts =
     (if nTasks < MAX_ADVERTISEMENTS then
        (case advert r of
           (r', Inl e) \<Rightarrow> ((k, r') # rs, Inl e)
         | (r', Inr None) \<Rightarrow>
             (case advert_loop rs nTasks adverts of (rs', res) \<Rightarrow> ((k, r') # rs', res))
         | (r', Inr (Some a)) \<Rightarrow>
             (case advert_loop rs (nTasks + length (ad_availableTaskIDs a)) (adverts @ [a]) of
                (rs', res) \<Rightarrow> ((k, r') # rs', res)))
      else ((k, r) # rs, Inr adverts))"

definition task_advertisements ::
  "rat \<Rightarrow> server \<Rightarrow> server \<times> (py_error + advertisement list option)" where
  "task_advertisements t srv =
     (if t > cached_advert_expiry srv then
        (case advert_loop (rules srv) 0 [] of
           (rs, Inl e) \<Rightarrow> (srv\<lparr>rules := rs\<rparr>, Inl e)
         | (rs, Inr adverts) \<Rightarrow>
             (srv\<lparr>rules := rs, srv_cached_advert := Some adverts, cached_advert_expiry := t + 1\<rparr>,
              Inr (Some adverts)))
      else (srv, Inr (srv_cached_advert srv)))"

text \<open>
  \<^verbatim>\<open>handin\<close>: the \<^verbatim>\<open>for\<close> loop inside the \<^verbatim>\<open>try\<close>. An unknown ruleID raises KeyError,
  which leaves the loop; the handler turns it into the \<^verbatim>\<open>{'ok': False}\<close> response.
  Any other exception propagates.
\<close>

fun handin_loop ::
  "rat \<Rightarrow> handin_entry list \<Rightarrow> (string \<times> rule) list \<Rightarrow> (string \<times> rule) list \<times> (py_error + unit)" where
  "handin_loop now [] rs = (rs, Inr ())"
| "handin_loop now (h # hs) rs =
     (case map_of rs (hi_ruleID h) of
        None \<Rightarrow> (rs, Inl KeyError)
      | Some r \<Rightarrow>
          (case mark_complete now h r of
             (r', Inl e) \<Rightarrow> (update_rule (hi_ruleID h) r' rs, Inl e)
           | (r', Inr u) \<Rightarrow> handin_loop now hs (update_rule (hi_ruleID h) r' rs)))"

record handin_response =
  ok :: bool
  error :: "py_error option"

definition handin :: "rat \<Rightarrow> handin_entry list \<Rightarrow> server \<Rightarrow> server \<times> (py_error + handin_response)" where
  "handin now body srv =
     (case handin_loop now body (rules srv) of
        (rs, Inr u) \<Rightarrow> (srv\<lparr>rules := rs\<rparr>, Inr \<lparr>ok = True, error = None\<rparr>)
      | (rs, Inl KeyError) \<Rightarrow> (srv\<lparr>rules := rs\<rparr>, Inr \<lparr>ok = False, error = Some KeyError\<rparr>)
      | (rs, Inl e) \<Rightarrow> (srv\<lparr>rules := rs\<rparr>, Inl e))"

text \<open>
  The body of the \<^verbatim>\<open>for qn in list(self._rules.keys())\<close> loop of \<^verbatim>\<open>_poll_rules\<close>.
  \<open>retries\<close> is the configured retry bound and \<open>new_id n\<close> the id
  \<^verbatim>\<open>'%06d-%s' % (n, uuid.uuid4().hex)\<close> drawn when \<^verbatim>\<open>_rule_n\<close> is \<open>n\<close>. The chained
  rule takes the constructor's defaults: no inputs, a task timeout of 600, datasource
  complete.
\<close>

definition poll_rule ::
  "rat \<Rightarrow> int \<Rightarrow> (nat \<Rightarrow> string) \<Rightarrow> string \<Rightarrow> server \<Rightarrow> server \<times> (py_error + unit)" where
  "poll_rule now retries new_id qn srv =
     (case map_of (rules srv) qn of
        None \<Rightarrow> (srv, Inl KeyError)
      | Some r0 \<Rightarrow>
          let r = poll_timeouts now r0;
              srv1 = srv\<lparr>rules := update_rule qn r (rules srv)\<rparr>
          in if finished r then
               let srv2 = srv1\<lparr>rules := pop_rule qn (rules srv1)\<rparr> in
               (case on_completion r of
                  None \<Rightarrow> (srv2, Inr ())
                | Some follow_on \<Rightarrow>
                    let n_tasks = (case fo_max_tasks follow_on of None \<Rightarrow> 1 | Some n \<Rightarrow> n);
                        tmo = (case fo_rule_timeout follow_on of None \<Rightarrow> 3600 | Some t \<Rightarrow> t);
                        rid = new_id (rule_n srv2)
                    in (case IntegerIDRule now retries rid (fo_template follow_on) None n_tasks 600 tmo
                               (fo_on_completion follow_on) True of
                          Inl e \<Rightarrow> (srv2, Inl e)
                        | Inr new_rule \<Rightarrow>
                            (case make_range_available now 0 n_tasks new_rule of
                               (rule', Inl e) \<Rightarrow> (srv2, Inl e)
                             | (rule', Inr u) \<Rightarrow>
                                 (srv2\<lparr>rules := set_rule rid rule' (rules srv2),
                                       rule_n := rule_n srv2 + 1\<rparr>, Inr ()))))
             else if expired now r then (srv1\<lparr>rules := pop_rule qn (rules srv1)\<rparr>, Inr ())
             else (srv1, Inr ()))"

fun poll_keys ::
  "rat \<Rightarrow> int \<Rightarrow> (nat \<Rightarrow> string) \<Rightarrow> string list \<Rightarrow> server \<Rightarrow> server \<times> (py_error + unit)" where
  "poll_keys now retries new_id [] srv = (srv, Inr ())"
| "poll_keys now retries new_id (qn # qns) srv =
     (case poll_rule now retries new_id qn srv of
        (srv', Inl e) \<Rightarrow> (srv', Inl e)
      | (srv', Inr u) \<Rightarrow> poll_keys now retries new_id qns srv')"

text \<open>One pass of the \<^verbatim>\<open>while self._do_poll\<close> loop of \<^verbatim>\<open>_poll_rules\<close>.\<close>

definition poll_rules :: "rat \<Rightarrow> int \<Rightarrow> (nat \<Rightarrow> string) \<Rightarrow> server \<Rightarrow> server \<times> (py_error + unit)" where
  "poll_rules now retries new_id srv = poll_keys now retries new_id (map fst (rules srv)) srv"

subsection \<open>Notions used in the statements\<close>

text \<open>Whether a requested id addresses a row that is Available.\<close>

definition requested_available :: "rule \<Rightarrow> int \<Rightarrow> bool" where
  "requested_available r i =
     (case resolve (length (task_info r)) i of
        None \<Rightarrow> False
      | Some j \<Rightarrow> status (task_info r ! j) = STATUS_AVAILABLE)"

text \<open>What one rule contributes to the list: its advert, if \<^verbatim>\<open>advert\<close> returns one.\<close>

definition advert_of :: "rule \<Rightarrow> advertisement list" where
  "advert_of r = (case snd (advert r) of Inr (Some a) \<Rightarrow> [a] | _ \<Rightarrow> [])"

definition advertised :: "(string \<times> rule) list \<Rightarrow> advertisement list" where
  "advertised rs = concat (map (\<lambda>(k, r). advert_of r) rs)"

definition n_advertised :: "(string \<times> rule) list \<Rightarrow> nat" where
  "n_advertised rs = sum_list (map (\<lambda>a. length (ad_availableTaskIDs a)) (advertised rs))"

subsection \<open>Example states\<close>

text \<open>A rule as \<^verbatim>\<open>IntegerIDRule('rule', 'template', max_task_ID=n, datasource_complete=False)\<close>
  builds it at time 0, with \<open>retries\<close> configured retries.\<close>

definition example_rule :: "int \<Rightarrow> int \<Rightarrow> rule" where
  "example_rule n retries =
     \<lparr>ruleID = ''rule'', inputs_by_task = None, template = ''template'',
      task_info = replicate (nat n) zero_task,
      n_retries = retries, timeout = 600, rule_timeout = 3600,
      cached_advert = None, active = True,
      nTotal = 0, nAssigned = 0, nAvailable = 0, nCompleted = 0, nFailed = 0,
      n_max = n, datasource_complete = False,
      on_completion = None, avCost = 0, rule_expiry = 3600\<rparr>"

text \<open>Two tasks released and won by one bid; task 0 is then handed in twice.\<close>

definition twice_handed_in :: rule where
  "twice_handed_in = run_ops
     [MakeRangeAvailable 0 0 2,
      Bid 1 \<lparr>bid_ruleID = ''rule'', bid_taskIDs = [0, 1], bid_costs = [1, 1]\<rparr>,
      MarkComplete 2 \<lparr>hi_ruleID = ''rule'', hi_taskIDs = [0], hi_status = [3]\<rparr>,
      MarkComplete 3 \<lparr>hi_ruleID = ''rule'', hi_taskIDs = [0], hi_status = [3]\<rparr>]
     (example_rule 2 3)"

text \<open>Three tasks, the first two released; a bid for ids 0, 2 and -2 (the row before
  the last).\<close>

definition released_rule :: rule where
  "released_rule = run_ops [MakeRangeAvailable 0 0 2] (example_rule 3 3)"

definition example_bid :: bid_request where
  "example_bid = \<lparr>bid_ruleID = ''rule'', bid_taskIDs = [0, 2, - 2], bid_costs = [5, 6, 7]\<rparr>"






text \<open>A server holding the one rule \<open>released_rule\<close> after the bid \<open>example_bid\<close>, which
  leaves tasks 0 and 1 Assigned.\<close>

definition example_server :: server where
  "example_server =
     \<lparr>rules = [(''rule'', fst (bid 1 example_bid released_rule))], rule_n = 1,
      srv_cached_advert = None, cached_advert_expiry = 0\<rparr>"

text \<open>Hand-ins for the registered rule and for a rule that is not registered.\<close>

definition handin_known :: "int \<Rightarrow> handin_entry" where
  "handin_known i = \<lparr>hi_ruleID = ''rule'', hi_taskIDs = [i], hi_status = [3]\<rparr>"

definition handin_unknown :: handin_entry where
  "handin_unknown = \<lparr>hi_ruleID = ''gone'', hi_taskIDs = [0], hi_status = [3]\<rparr>"




text \<open>Three rules in registration order, the second one with nothing released.\<close>

definition advertising_server :: server where
  "advertising_server =
     \<lparr>rules = [(''rule'', released_rule), (''idle'', (example_rule 2 3)\<lparr>ruleID := ''idle''\<rparr>),
               (''last'', run_ops [MakeRangeAvailable 0 1 2]
                           ((example_rule 2 3)\<lparr>ruleID := ''last''\<rparr>))],
      rule_n = 3, srv_cached_advert = None, cached_advert_expiry = 0\<rparr>"

section \<open>Properties\<close>

lemmas status_defs = STATUS_UNAVAILABLE_def STATUS_AVAILABLE_def STATUS_ASSIGNED_def
  STATUS_COMPLETE_def STATUS_FAILED_def

lemma example_rule_init:
  "IntegerIDRule 0 retries ''rule'' ''template'' None n 600 3600 None False =
     (if n < 0 then Inl ValueError else Inr (example_rule n retries))"
  by (simp add: IntegerIDRule_def example_rule_def)

subsection \<open>Array writes and index resolution\<close>

lemma length_release_slice: "length (release_slice s e ts) = length ts"
  by (simp add: release_slice_def)

lemma nth_release_slice:
  "i < length ts \<Longrightarrow> release_slice s e ts ! i =
     (if s \<le> int i \<and> int i < e then (ts ! i)\<lparr>status := STATUS_AVAILABLE\<rparr> else ts ! i)"
  by (simp add: release_slice_def)







lemma masked_snd:
  "masked (map p xs) ys = map snd (filter (\<lambda>(x, y). p x) (zip xs ys))"
proof (induction xs arbitrary: ys)
  case Nil
  show ?case by simp
next
  case (Cons x xs)
  show ?case by (cases ys) (simp_all add: Cons)
qed


lemma resolve_all_map: "resolve_all n ids = Some rows \<Longrightarrow> map (resolve n) ids = map Some rows"
  by (induction ids arbitrary: rows) (auto split: option.splits)


lemma resolve_all_None:
  "resolve_all n ids = None \<Longrightarrow> \<exists>i \<in> set ids. \<not> (- int n \<le> i \<and> i < int n)"
  by (induction ids) (auto simp: resolve_def split: option.splits if_splits)

subsection \<open>Releasing a range\<close>

text \<open>
  C6, as the code has it. \<^verbatim>\<open>make_range_available(start, end)\<close> raises RuntimeError exactly
  when \<open>start\<close> or \<open>end\<close> lies outside \<open>[0, len(_task_info)]\<close>, and then changes
  nothing. It does not compare \<open>start\<close> with \<open>end\<close>. When it returns, the rows with
  \<open>start \<le> i < end\<close> have become Available and every other row is as before; with
  \<open>start > end\<close> that is no row at all.
\<close>

theorem make_range_available_cases:
  "(snd (make_range_available now start end r) = Inl RuntimeError
      \<longleftrightarrow> start < 0 \<or> start > int (length (task_info r))
          \<or> end < 0 \<or> end > int (length (task_info r)))
   \<and> (snd (make_range_available now start end r) = Inl RuntimeError
        \<longrightarrow> fst (make_range_available now start end r) = r)
   \<and> (snd (make_range_available now start end r) \<noteq> Inl RuntimeError \<longrightarrow>
        snd (make_range_available now start end r) = Inr ()
        \<and> length (task_info (fst (make_range_available now start end r))) = length (task_info r)
        \<and> (\<forall>i < length (task_info r).
             task_info (fst (make_range_available now start end r)) ! i =
               (if start \<le> int i \<and> int i < end
                then (task_info r ! i)\<lparr>status := STATUS_AVAILABLE\<rparr> else task_info r ! i)))"
  by (auto simp: make_range_available_def Let_def update_nums_def length_release_slice
      nth_release_slice)

theorem make_range_available_cases_witness:
  "snd (make_range_available 0 0 2 (example_rule 3 3)) = Inr ()
   \<and> status (task_info (fst (make_range_available 0 0 2 (example_rule 3 3))) ! 1) = STATUS_AVAILABLE
   \<and> snd (make_range_available 0 0 4 (example_rule 3 3)) = Inl RuntimeError
   \<and> fst (make_range_available 0 0 4 (example_rule 3 3)) = example_rule 3 3"
proof -
  have l: "length (task_info (example_rule 3 3)) = 3" by code_simp
  from l make_range_available_cases [of 0 0 2 "example_rule 3 3"]
    make_range_available_cases [of 0 0 4 "example_rule 3 3"]
  show ?thesis by simp
qed

text \<open>
  C6 as stated fails: on a rule with three tasks, \<^verbatim>\<open>make_range_available(2, 1)\<close> has
  both bounds within \<open>[0, 3]\<close> and \<open>start > end\<close>, and it returns.
\<close>

theorem make_range_available_order_counterexample:
  "0 \<le> (1::int) \<and> (1::int) \<le> n_max (example_rule 3 3) \<and> 0 \<le> (2::int)
   \<and> (2::int) \<le> n_max (example_rule 3 3) \<and> (2::int) > 1
   \<and> snd (make_range_available 0 2 1 (example_rule 3 3)) = Inr ()"
  by code_simp

subsection \<open>Marking the datasource complete\<close>

text \<open>
  C7, as the code has it. \<^verbatim>\<open>mark_datasource_complete(n_max)\<close> first recomputes
  \<open>nAvailable\<close> and \<open>nAssigned\<close> from the task array and raises ValueError exactly when
  \<open>n_max\<close> is less than the number of Assigned rows. On rejection the task array,
  \<open>_n_max\<close>, \<open>_datasource_complete\<close>, \<open>nTotal\<close>, \<open>nCompleted\<close> and \<open>nFailed\<close> are
  as before, the two recomputed counters keep their new values, and the rule is
  unchanged altogether when they agreed with the array already. Otherwise the call
  returns, the array keeps its rows and is as long as the larger of its length and
  \<open>n_max\<close>, the bound is \<open>n_max\<close> and the datasource is complete.
\<close>

theorem mark_datasource_complete_cases:
  "(snd (mark_datasource_complete n r) = Inl ValueError
      \<longleftrightarrow> n < count_status STATUS_ASSIGNED (task_info r))
   \<and> (n < count_status STATUS_ASSIGNED (task_info r) \<longrightarrow>
        fst (mark_datasource_complete n r) = update_nums r
        \<and> task_info (update_nums r) = task_info r \<and> n_max (update_nums r) = n_max r
        \<and> datasource_complete (update_nums r) = datasource_complete r
        \<and> nTotal (update_nums r) = nTotal r \<and> nCompleted (update_nums r) = nCompleted r
        \<and> nFailed (update_nums r) = nFailed r
        \<and> (counts_agree r \<longrightarrow> update_nums r = r))
   \<and> (\<not> n < count_status STATUS_ASSIGNED (task_info r) \<longrightarrow>
        snd (mark_datasource_complete n r) = Inr ()
        \<and> n_max (fst (mark_datasource_complete n r)) = n
        \<and> datasource_complete (fst (mark_datasource_complete n r))
        \<and> length (task_info (fst (mark_datasource_complete n r))) = max (length (task_info r)) (nat n)
        \<and> take (length (task_info r)) (task_info (fst (mark_datasource_complete n r))) = task_info r)"
  by (auto simp: mark_datasource_complete_def update_nums_def Let_def counts_agree_def)

theorem mark_datasource_complete_cases_witness:
  "0 < count_status STATUS_ASSIGNED (task_info twice_handed_in)
   \<and> snd (mark_datasource_complete 0 twice_handed_in) = Inl ValueError
   \<and> fst (mark_datasource_complete 0 twice_handed_in) = update_nums twice_handed_in
   \<and> \<not> 3 < count_status STATUS_ASSIGNED (task_info twice_handed_in)
   \<and> n_max (fst (mark_datasource_complete 3 twice_handed_in)) = 3
   \<and> datasource_complete (fst (mark_datasource_complete 3 twice_handed_in))"
proof -
  have h: "0 < count_status STATUS_ASSIGNED (task_info twice_handed_in)" by code_simp
  have g: "\<not> 3 < count_status STATUS_ASSIGNED (task_info twice_handed_in)" by code_simp
  from h g mark_datasource_complete_cases [of 0 twice_handed_in]
    mark_datasource_complete_cases [of 3 twice_handed_in]
  show ?thesis by simp
qed

text \<open>
  C7 as stated fails: after task 0 has been handed in twice \<open>nAssigned\<close> is 0 while
  task 1 is still Assigned; \<^verbatim>\<open>mark_datasource_complete(0)\<close> is rejected and leaves
  \<open>nAssigned\<close> at 1.
\<close>

theorem mark_datasource_complete_unchanged_counterexample:
  "snd (mark_datasource_complete 0 twice_handed_in) = Inl ValueError
   \<and> nAssigned (fst (mark_datasource_complete 0 twice_handed_in)) \<noteq> nAssigned twice_handed_in"
  by code_simp

text \<open>
  C10. When \<^verbatim>\<open>mark_datasource_complete(n_max)\<close> returns, the task array is as long as
  the larger of its old length and \<open>n_max\<close> (it never shrinks), every row that was
  there is unchanged, every appended row is Unavailable with no retries and no cost,
  and the bound is \<open>n_max\<close>.
\<close>

theorem mark_datasource_complete_frame:
  assumes "snd (mark_datasource_complete n r) = Inr ()"
  shows "length (task_info (fst (mark_datasource_complete n r))) = max (length (task_info r)) (nat n)
    \<and> (\<forall>i < length (task_info r). task_info (fst (mark_datasource_complete n r)) ! i = task_info r ! i)
    \<and> (\<forall>i. length (task_info r) \<le> i \<and> i < length (task_info (fst (mark_datasource_complete n r)))
           \<longrightarrow> status (task_info (fst (mark_datasource_complete n r)) ! i) = STATUS_UNAVAILABLE
             \<and> nRetries (task_info (fst (mark_datasource_complete n r)) ! i) = 0
             \<and> cost (task_info (fst (mark_datasource_complete n r)) ! i) = 0)
    \<and> n_max (fst (mark_datasource_complete n r)) = n"
  using assms
  by (auto simp: mark_datasource_complete_def update_nums_def Let_def nth_append zero_task_def
      status_defs split: if_splits)

theorem mark_datasource_complete_frame_witness:
  "snd (mark_datasource_complete 3 twice_handed_in) = Inr ()
   \<and> length (task_info (fst (mark_datasource_complete 3 twice_handed_in))) = 3
   \<and> task_info (fst (mark_datasource_complete 3 twice_handed_in)) ! 1 = task_info twice_handed_in ! 1
   \<and> status (task_info (fst (mark_datasource_complete 3 twice_handed_in)) ! 2) = STATUS_UNAVAILABLE"
proof -
  have h: "snd (mark_datasource_complete 3 twice_handed_in) = Inr ()" by code_simp
  have l: "length (task_info twice_handed_in) = 2" by code_simp
  from mark_datasource_complete_frame [OF h] l h show ?thesis by simp
qed

subsection \<open>Bidding\<close>

lemma task_info_update_cost [simp]: "task_info (update_cost r) = task_info r"
  by (simp add: update_cost_def Let_def)

lemma masked_ids:
  "map (resolve n) ids = map Some rows \<Longrightarrow>
     masked (map p rows) ids =
       filter (\<lambda>i. case resolve n i of None \<Rightarrow> False | Some j \<Rightarrow> p j) ids"
proof (induction ids arbitrary: rows)
  case Nil
  then show ?case by simp
next
  case (Cons i ids)
  then obtain j rows' where "rows = j # rows'" by (cases rows) auto
  with Cons show ?case by auto
qed




lemma bid_result:
  assumes "active r"
    and "resolve_all (length (task_info r)) (bid_taskIDs b) = Some rows"
    and "length (bid_costs b) = length (bid_taskIDs b)"
  shows "snd (bid now b r) =
      Inr \<lparr>res_ruleID = bid_ruleID b,
           res_taskIDs = filter (requested_available r) (bid_taskIDs b),
           res_template = template r\<rparr>"
proof -
  have "masked (map (\<lambda>i. status (task_info r ! i) = STATUS_AVAILABLE) rows) (bid_taskIDs b)
      = filter (requested_available r) (bid_taskIDs b)"
    unfolding requested_available_def
    by (rule masked_ids) (rule resolve_all_map [OF assms(2)])
  with assms show ?thesis by (simp add: bid_def Let_def)
qed







subsection \<open>What each call does to one row\<close>














subsection \<open>Leases\<close>






subsection \<open>Lease expiry and retries\<close>







subsection \<open>Counters\<close>



lemma count_status_append:
  "count_status v (xs @ ys) = count_status v xs + count_status v ys"
  by (simp add: count_status_def)










lemma counts_agree_update_nums: "counts_agree (update_nums r)"
  by (simp add: counts_agree_def update_nums_def)








subsection \<open>Hand-in batches\<close>

lemma map_fst_update_rule: "map fst (update_rule k r rs) = map fst rs"
  by (induction rs) (auto simp: update_rule_def)

lemma handin_loop_keys: "map fst (fst (handin_loop now hs rs)) = map fst rs"
proof (induction hs arbitrary: rs)
  case Nil
  show ?case by simp
next
  case (Cons h hs)
  show ?case
    by (auto simp: Cons map_fst_update_rule split: option.splits prod.splits sum.splits)
qed

lemma handin_loop_append:
  "handin_loop now (xs @ ys) rs =
     (case handin_loop now xs rs of
        (rs', Inl e) \<Rightarrow> (rs', Inl e)
      | (rs', Inr u) \<Rightarrow> handin_loop now ys rs')"
proof (induction xs arbitrary: rs)
  case Nil
  show ?case by simp
next
  case (Cons h hs)
  show ?case
    by (auto simp: Cons split: option.splits prod.splits sum.splits)
qed

text \<open>
  C5, as the code has it. When the entries before an entry for an unknown ruleID have
  all been applied without error, the batch stops at that entry: the registry is as
  those earlier entries left it, no entry after the unknown one is applied, and the
  response is \<^verbatim>\<open>{'ok': False, 'error': ...}\<close> for the KeyError.
\<close>

theorem handin_stops_at_unknown:
  assumes "snd (handin now pre srv) = Inr \<lparr>ok = True, error = None\<rparr>"
    and "hi_ruleID h \<notin> fst ` set (rules srv)"
  shows "handin now (pre @ h # post) srv =
     (fst (handin now pre srv), Inr \<lparr>ok = False, error = Some KeyError\<rparr>)"
proof -
  obtain rs res where l: "handin_loop now pre (rules srv) = (rs, res)"
    by (cases "handin_loop now pre (rules srv)")
  from assms(1) l obtain u where res: "res = Inr u"
    by (cases res; cases "projl res") (auto simp: handin_def)
  have "map fst rs = map fst (rules srv)"
    using handin_loop_keys [of now pre "rules srv"] l by simp
  then have "set (map fst rs) = set (map fst (rules srv))" by simp
  with assms(2) have "map_of rs (hi_ruleID h) = None"
    by (simp add: map_of_eq_None_iff)
  then have "handin_loop now (pre @ h # post) (rules srv) = (rs, Inl KeyError)"
    using l res by (simp add: handin_loop_append)
  with l res show ?thesis by (simp add: handin_def)
qed

theorem handin_stops_at_unknown_witness:
  "snd (handin 5 [handin_known 1] example_server) = Inr \<lparr>ok = True, error = None\<rparr>
   \<and> handin 5 [handin_known 1, handin_unknown, handin_known 0] example_server =
       (fst (handin 5 [handin_known 1] example_server), Inr \<lparr>ok = False, error = Some KeyError\<rparr>)"
proof -
  have a: "snd (handin 5 [handin_known 1] example_server) = Inr \<lparr>ok = True, error = None\<rparr>"
    by code_simp
  have b: "hi_ruleID handin_unknown \<notin> fst ` set (rules example_server)" by code_simp
  from handin_stops_at_unknown [OF a b, of "[handin_known 0]"] a show ?thesis by simp
qed

text \<open>
  C5 as stated fails: in the batch of an entry for an unknown rule followed by a hand-in
  of task 0 of the registered rule, the second entry is not applied (the registry is
  unchanged and task 0 is still Assigned), though alone it would be.
\<close>

theorem handin_after_unknown_counterexample:
  "handin 5 [handin_unknown, handin_known 0] example_server =
     (example_server, Inr \<lparr>ok = False, error = Some KeyError\<rparr>)
   \<and> map (status \<circ> hd \<circ> task_info \<circ> snd) (rules example_server) = [STATUS_ASSIGNED]
   \<and> map (status \<circ> hd \<circ> task_info \<circ> snd) (rules (fst (handin 5 [handin_known 0] example_server)))
       = [STATUS_COMPLETE]"
  by code_simp

subsection \<open>Chained rules\<close>

lemma on_completion_poll_timeouts [simp]:
  "on_completion (poll_timeouts t r) = on_completion r"
  by (simp add: poll_timeouts_def Let_def)






subsection \<open>The advertisement list\<close>

lemma advertised_Cons: "advertised ((k, r) # rs) = advert_of r @ advertised rs"
  by (simp add: advertised_def)

lemma n_advertised_Cons:
  "n_advertised ((k, r) # rs) =
     sum_list (map (\<lambda>a. length (ad_availableTaskIDs a)) (advert_of r)) + n_advertised rs"
  by (simp add: n_advertised_def advertised_Cons)

lemma advert_loop_prefix:
  assumes "snd (advert_loop rs n0 ads0) = Inr ads"
  shows "\<exists>k \<le> length rs. ads = ads0 @ advertised (take k rs)
     \<and> (k < length rs \<longrightarrow> MAX_ADVERTISEMENTS \<le> n0 + n_advertised (take k rs))
     \<and> (\<forall>j < k. n0 + n_advertised (take j rs) < MAX_ADVERTISEMENTS)"
  using assms
proof (induction rs arbitrary: n0 ads0)
  case Nil
  then show ?case by (simp add: advertised_def)
next
  case (Cons x rs)
  obtain key r where x: "x = (key, r)" by (cases x)
  show ?case
  proof (cases "n0 < MAX_ADVERTISEMENTS")
    case False
    with Cons.prems x have "ads = ads0" by simp
    with False show ?thesis
      by (intro exI [of _ 0]) (simp add: advertised_def n_advertised_def)
  next
    case True
    obtain r' res where a: "advert r = (r', res)" by (cases "advert r")
    show ?thesis
    proof (cases res)
      case (Inl e)
      with Cons.prems x True a show ?thesis by simp
    next
      case (Inr oa)
      show ?thesis
      proof (cases oa)
        case None
        with Inr a have ao: "advert_of r = []" by (simp add: advert_of_def)
        from Cons.prems x True a Inr None
        have "snd (advert_loop rs n0 ads0) = Inr ads"
          by (simp split: prod.splits)
        from Cons.IH [OF this] obtain k where k: "k \<le> length rs"
          "ads = ads0 @ advertised (take k rs)"
          "k < length rs \<longrightarrow> MAX_ADVERTISEMENTS \<le> n0 + n_advertised (take k rs)"
          "\<forall>j < k. n0 + n_advertised (take j rs) < MAX_ADVERTISEMENTS" by blast
        have "\<forall>j < Suc k. n0 + n_advertised (take j (x # rs)) < MAX_ADVERTISEMENTS"
        proof (intro allI impI)
          fix j assume "j < Suc k"
          show "n0 + n_advertised (take j (x # rs)) < MAX_ADVERTISEMENTS"
          proof (cases j)
            case 0
            with True show ?thesis by (simp add: n_advertised_def advertised_def)
          next
            case (Suc j')
            with \<open>j < Suc k\<close> have "j' < k" by simp
            with k(4) have "n0 + n_advertised (take j' rs) < MAX_ADVERTISEMENTS"
              by blast
            with Suc x ao show ?thesis by (simp add: n_advertised_Cons)
          qed
        qed
        with k x ao show ?thesis
          by (intro exI [of _ "Suc k"]) (simp add: advertised_Cons n_advertised_Cons add.assoc)
      next
        case (Some a')
        with Inr a have ao: "advert_of r = [a']" by (simp add: advert_of_def)
        from Cons.prems x True a Inr Some
        have "snd (advert_loop rs (n0 + length (ad_availableTaskIDs a')) (ads0 @ [a'])) = Inr ads"
          by (simp split: prod.splits)
        from Cons.IH [OF this] obtain k where k: "k \<le> length rs"
          "ads = (ads0 @ [a']) @ advertised (take k rs)"
          "k < length rs \<longrightarrow>
             MAX_ADVERTISEMENTS \<le> n0 + length (ad_availableTaskIDs a') + n_advertised (take k rs)"
          "\<forall>j < k. n0 + length (ad_availableTaskIDs a') + n_advertised (take j rs)
             < MAX_ADVERTISEMENTS" by blast
        have "\<forall>j < Suc k. n0 + n_advertised (take j (x # rs)) < MAX_ADVERTISEMENTS"
        proof (intro allI impI)
          fix j assume "j < Suc k"
          show "n0 + n_advertised (take j (x # rs)) < MAX_ADVERTISEMENTS"
          proof (cases j)
            case 0
            with True show ?thesis by (simp add: n_advertised_def advertised_def)
          next
            case (Suc j')
            with \<open>j < Suc k\<close> have "j' < k" by simp
            with k(4) have "n0 + length (ad_availableTaskIDs a') + n_advertised (take j' rs) < MAX_ADVERTISEMENTS"
              by blast
            with Suc x ao show ?thesis by (simp add: n_advertised_Cons)
          qed
        qed
        with k x ao show ?thesis
          by (intro exI [of _ "Suc k"]) (simp add: advertised_Cons n_advertised_Cons add.assoc)
      qed
    qed
  qed
qed

lemma advert_fresh:
  assumes "cached_advert r = None" and "snd (advert r) = Inr (Some a)"
  shows "ad_availableTaskIDs a = available_ids (task_info r) \<and> available_ids (task_info r) \<noteq> []
    \<and> ad_ruleID a = ruleID r \<and> ad_taskTemplate a = template r"
  using assms
  by (auto simp: advert_def Let_def split: if_splits option.splits)

lemma advert_no_inputs:
  "inputs_by_task r = None \<Longrightarrow> \<exists>oa. snd (advert r) = Inr oa"
  by (auto simp: advert_def Let_def split: option.splits)

lemma advert_loop_returns:
  "\<forall>(k, r) \<in> set rs. inputs_by_task r = None \<Longrightarrow> \<exists>ads. snd (advert_loop rs n0 ads0) = Inr ads"
proof (induction rs arbitrary: n0 ads0)
  case Nil
  show ?case by simp
next
  case (Cons x rs)
  obtain key r where x: "x = (key, r)" by (cases x)
  with Cons.prems obtain oa where oa: "snd (advert r) = Inr oa"
    using advert_no_inputs [of r] by auto
  obtain r' where a: "advert r = (r', Inr oa)" using oa by (cases "advert r") simp
  from Cons.prems have rest: "\<forall>(k, r) \<in> set rs. inputs_by_task r = None" by simp
  show ?case
  proof (cases oa)
    case None
    with x a Cons.IH [OF rest, of n0 ads0] show ?thesis
      by (auto split: prod.splits)
  next
    case (Some a')
    with x a Cons.IH [OF rest, of "n0 + length (ad_availableTaskIDs a')" "ads0 @ [a']"]
    show ?thesis by (auto split: prod.splits)
  qed
qed

text \<open>
  C9. A rebuild (a call after the cached list has expired) that returns yields, in
  registration order, the adverts of the first \<open>k\<close> registered rules that have one,
  for some \<open>k\<close>: every one of those \<open>k\<close> rules was visited while fewer than
  \<open>MAX_ADVERTISEMENTS\<close> task ids had been gathered, and the rules after them are left
  out only because that many had been gathered by then. An advert that a rule computes
  afresh lists all of its Available ids and is not empty. The rebuild returns whenever
  no rule carries per-task inputs.
\<close>

theorem task_advertisements_prefix:
  "(t > cached_advert_expiry srv \<and> snd (task_advertisements t srv) = Inr (Some ads) \<longrightarrow>
      (\<exists>k \<le> length (rules srv). ads = advertised (take k (rules srv))
         \<and> (k < length (rules srv) \<longrightarrow> MAX_ADVERTISEMENTS \<le> n_advertised (take k (rules srv)))
         \<and> (\<forall>j < k. n_advertised (take j (rules srv)) < MAX_ADVERTISEMENTS)))
   \<and> (cached_advert r = None \<and> snd (advert r) = Inr (Some a) \<longrightarrow>
        ad_availableTaskIDs a = available_ids (task_info r) \<and> ad_availableTaskIDs a \<noteq> [])
   \<and> (snd (advert r) = Inr None \<longrightarrow> advert_of r = [])
   \<and> (t > cached_advert_expiry srv \<and> (\<forall>(k, r) \<in> set (rules srv). inputs_by_task r = None) \<longrightarrow>
        (\<exists>ads. snd (task_advertisements t srv) = Inr (Some ads)))"
proof (intro conjI impI)
  assume h: "t > cached_advert_expiry srv \<and> snd (task_advertisements t srv) = Inr (Some ads)"
  then have "snd (advert_loop (rules srv) 0 []) = Inr ads"
    by (auto simp: task_advertisements_def split: prod.splits sum.splits)
  from advert_loop_prefix [OF this]
  show "\<exists>k \<le> length (rules srv). ads = advertised (take k (rules srv))
         \<and> (k < length (rules srv) \<longrightarrow> MAX_ADVERTISEMENTS \<le> n_advertised (take k (rules srv)))
         \<and> (\<forall>j < k. n_advertised (take j (rules srv)) < MAX_ADVERTISEMENTS)"
    by simp
next
  assume "cached_advert r = None \<and> snd (advert r) = Inr (Some a)"
  then show "ad_availableTaskIDs a = available_ids (task_info r)"
    and "ad_availableTaskIDs a \<noteq> []"
    using advert_fresh [of r a] by simp_all
next
  assume "snd (advert r) = Inr None"
  then show "advert_of r = []" by (simp add: advert_of_def)
next
  assume h: "t > cached_advert_expiry srv \<and> (\<forall>(k, r) \<in> set (rules srv). inputs_by_task r = None)"
  then obtain ads where "snd (advert_loop (rules srv) 0 []) = Inr ads"
    using advert_loop_returns [of "rules srv" 0 "[]"] by blast
  with h show "\<exists>ads. snd (task_advertisements t srv) = Inr (Some ads)"
    by (auto simp: task_advertisements_def split: prod.splits)
qed

lemmas advert_eval = advertising_server_def released_rule_def example_rule_def
  make_range_available_def release_slice_def update_nums_def count_status_def zero_task_def
  advert_def available_ids_def advert_of_def advertised_def
  task_advertisements_def MAX_ADVERTISEMENTS_def status_defs Let_def upt_rec

theorem task_advertisements_prefix_witness:
  "1 > cached_advert_expiry advertising_server
   \<and> snd (task_advertisements 1 advertising_server)
       = Inr (Some (advertised (take 3 (rules advertising_server))))
   \<and> map ad_ruleID (advertised (take 3 (rules advertising_server))) = [''rule'', ''last'']
   \<and> map ad_availableTaskIDs (advertised (take 3 (rules advertising_server))) = [[0, 1], [1]]
   \<and> cached_advert released_rule = None
   \<and> available_ids (task_info released_rule) = [0, 1]
   \<and> snd (advert (example_rule 2 3)) = Inr None
   \<and> advert_of (example_rule 2 3) = []"
proof -
  let ?a1 = "\<lparr>ad_ruleID = ''rule'', ad_taskTemplate = ''template'',
     ad_availableTaskIDs = [0, 1], ad_inputsByTask = None\<rparr>"
  let ?a2 = "\<lparr>ad_ruleID = ''last'', ad_taskTemplate = ''template'',
     ad_availableTaskIDs = [1], ad_inputsByTask = None\<rparr>"
  let ?ads = "advertised (take 3 (rules advertising_server))"
  have l: "?ads = [?a1, ?a2]" by (simp add: advert_eval)
  have a: "1 > cached_advert_expiry advertising_server" by (simp add: advertising_server_def)
  have b: "snd (task_advertisements 1 advertising_server) = Inr (Some ?ads)"
    unfolding l by (simp add: advert_eval)
  have d: "cached_advert released_rule = None" "snd (advert released_rule) = Inr (Some ?a1)"
    by (simp_all add: advert_eval)
  have f: "snd (advert (example_rule 2 3)) = Inr None" by (simp add: advert_eval)
  note T = task_advertisements_prefix [of advertising_server 1 ?ads released_rule ?a1]
  note U = task_advertisements_prefix [of advertising_server 1 ?ads "example_rule 2 3" ?a1]
  have "ad_availableTaskIDs ?a1 = available_ids (task_info released_rule)
      \<and> ad_availableTaskIDs ?a1 \<noteq> []"
    by (rule T [THEN conjunct2, THEN conjunct1, THEN mp]) (intro conjI d)
  then have g: "available_ids (task_info released_rule) = [0, 1]" by simp
  have h: "advert_of (example_rule 2 3) = []"
    by (rule U [THEN conjunct2, THEN conjunct2, THEN conjunct1, THEN mp]) (rule f)
  have c: "map ad_ruleID ?ads = [''rule'', ''last'']"
    "map ad_availableTaskIDs ?ads = [[0, 1], [1]]" unfolding l by simp_all
  show ?thesis by (intro conjI a b c d(1) g f h)
qed

end
